theory Spec2Isabelle
  imports Main "HOL-Library.Word"
begin

section \<open>The image server of \<^verbatim>\<open>servercodes/app.py\<close>\<close>

text \<open>
  The Flask application keeps uploaded frames as files below \<^verbatim>\<open>uploads\<close> and
  remembers the most recent one in the module-level dictionary \<^verbatim>\<open>latest_image\<close>.
  Its three handlers are embedded as functions over an explicit server state: the
  files on disk (a map from path to content) and the dictionary (a record of two
  optional strings, \<open>None\<close> being Python's \<^verbatim>\<open>None\<close>). Everything a handler
  takes from outside the request (the clock, the base64 decoder of the standard
  library, a failing disk) is an explicit argument. Relative paths are resolved
  from one directory, the application's.
\<close>

subsection \<open>Data\<close>

type_synonym byte = "8 word"
type_synonym bytes = "byte list"

text \<open>The files on disk: path to content.\<close>

type_synonym disk = "string \<rightharpoonup> bytes"

text \<open>\<^verbatim>\<open>latest_image = {'filename': None, 'timestamp': None}\<close> (lines 13 to 16).\<close>

record latest =
  filename :: "string option"
  timestamp :: "string option"

record server =
  disk :: disk
  latest_image :: latest

definition UPLOAD_FOLDER :: string where
  "UPLOAD_FOLDER = ''uploads''"

definition initial :: "disk \<Rightarrow> server" where
  "initial d = \<lparr>disk = d, latest_image = \<lparr>filename = None, timestamp = None\<rparr>\<rparr>"

text \<open>
  A part of \<^verbatim>\<open>request.files\<close>: the file name the client sent and the bytes of
  the part. \<^verbatim>\<open>request.files\<close> and \<^verbatim>\<open>request.form\<close> are multi-dictionaries:
  \<^verbatim>\<open>in\<close> asks for the key, indexing gives the first value of the key, which is
  what \<open>map_of\<close> does on an association list.
\<close>

record file_storage =
  fs_filename :: string
  stream :: bytes

record request =
  files :: "(string \<times> file_storage) list"
  form :: "(string \<times> string) list"

definition contains_key :: "string \<Rightarrow> (string \<times> 'v) list \<Rightarrow> bool" where
  "contains_key k d = (map_of d k \<noteq> None)"

text \<open>
  \<^verbatim>\<open>datetime.now()\<close>: the fields of a \<^verbatim>\<open>datetime\<close>, each within the range
  the class guarantees (a four-digit year, the month from 1 to 12, and so on).
\<close>

record datetime =
  year :: nat
  month :: nat
  day :: nat
  hour :: nat
  minute :: nat
  second :: nat
  microsecond :: nat

text \<open>
  What can go wrong when a handler writes a file: \<^verbatim>\<open>open(path, "wb")\<close> raises
  (the file is untouched), or the write raises after the file was created and
  some of the bytes reached it. The string is \<^verbatim>\<open>str(e)\<close> of the exception.
\<close>

datatype io_fault = NoFault | OpenFails string | WriteFails string nat

text \<open>
  The surroundings of one call of \<^verbatim>\<open>upload_image\<close>: the clock, the standard
  library's \<^verbatim>\<open>base64.b64decode\<close> (\<open>Inl\<close> the message of the
  \<^verbatim>\<open>binascii.Error\<close> it raises) and the fault of the disk, if any.
\<close>

record upload_env =
  now :: datetime
  b64decode :: "string \<Rightarrow> string + bytes"
  fault :: io_fault

text \<open>Responses: \<^verbatim>\<open>jsonify(...)\<close> with its status code, a file, or Flask's plain 404.\<close>

datatype json = JStr string | JNull

datatype response = Json "(string \<times> json) list" nat | File bytes | NotFound

fun status :: "response \<Rightarrow> nat" where
  "status (Json _ code) = code"
| "status (File _) = 200"
| "status NotFound = 404"

fun to_json :: "string option \<Rightarrow> json" where
  "to_json None = JNull"
| "to_json (Some s) = JStr s"

subsection \<open>Strings and paths\<close>

text \<open>\<^verbatim>\<open>s.split(c)\<close> for a one-character separator: never empty, \<^verbatim>\<open>''.split(c) == ['']\<close>.\<close>

fun split_on :: "char \<Rightarrow> string \<Rightarrow> string list" where
  "split_on c [] = [[]]"
| "split_on c (x # xs) =
     (if x = c then [] # split_on c xs
      else (case split_on c xs of
              [] \<Rightarrow> [[x]]
            | y # ys \<Rightarrow> (x # y) # ys))"

text \<open>\<^verbatim>\<open>sep.join(parts)\<close>.\<close>

fun join :: "string \<Rightarrow> string list \<Rightarrow> string" where
  "join sep [] = []"
| "join sep [p] = p"
| "join sep (p # q # ps) = p @ sep @ join sep (q # ps)"

definition startswith :: "string \<Rightarrow> string \<Rightarrow> bool" where
  "startswith s p = (take (length p) s = p)"

text \<open>\<^verbatim>\<open>strftime("%Y%m%d_%H%M%S")\<close>: zero-padded decimal fields.\<close>

definition digit :: "nat \<Rightarrow> char" where
  "digit n = ''0123456789'' ! (n mod 10)"

definition pad2 :: "nat \<Rightarrow> string" where
  "pad2 n = [digit (n div 10), digit n]"

definition pad4 :: "nat \<Rightarrow> string" where
  "pad4 n = [digit (n div 1000), digit (n div 100), digit (n div 10), digit n]"

definition strftime :: "datetime \<Rightarrow> string" where
  "strftime t = pad4 (year t) @ pad2 (month t) @ pad2 (day t) @ ''_'' @
     pad2 (hour t) @ pad2 (minute t) @ pad2 (second t)"

text \<open>\<^verbatim>\<open>f"image_{timestamp}.jpg"\<close> (lines 39 and 54).\<close>

definition image_name :: "string \<Rightarrow> string" where
  "image_name ts = ''image_'' @ ts @ ''.jpg''"

text \<open>\<^verbatim>\<open>os.path.join(a, b)\<close> on POSIX.\<close>

definition os_path_join :: "string \<Rightarrow> string \<Rightarrow> string" where
  "os_path_join a b =
     (if startswith b ''/'' then b
      else if a = [] \<or> last a = CHR ''/'' then a @ b
      else a @ ''/'' @ b)"

text \<open>
  \<^verbatim>\<open>posixpath.normpath\<close>: the loop over the components keeps a component, drops
  it, or removes the one before it.
\<close>

definition normpath_step :: "bool \<Rightarrow> string list \<Rightarrow> string \<Rightarrow> string list" where
  "normpath_step initial_slashes new_comps part =
     (if part = [] \<or> part = ''.'' then new_comps
      else if part \<noteq> ''..'' \<or> (\<not> initial_slashes \<and> new_comps = []) \<or>
              (new_comps \<noteq> [] \<and> last new_comps = ''..'')
        then new_comps @ [part]
      else if new_comps \<noteq> [] then butlast new_comps
      else new_comps)"

definition normpath :: "string \<Rightarrow> string" where
  "normpath path =
     (if path = [] then ''.''
      else
        let initial_slashes =
              (if startswith path ''/''
               then (if startswith path ''//'' \<and> \<not> startswith path ''///'' then 2 else 1)
               else (0::nat));
            comps = split_on CHR ''/'' path;
            new_comps = foldl (normpath_step (initial_slashes \<noteq> 0)) [] comps;
            p = replicate initial_slashes CHR ''/'' @ join ''/'' new_comps
        in if p = [] then ''.'' else p)"

subsection \<open>The frame store\<close>

text \<open>
  Writing a file, as the handler does it: \<^verbatim>\<open>open(path, "wb")\<close> creates the
  file or empties it, the write fills it.
\<close>

definition open_wb :: "io_fault \<Rightarrow> string \<Rightarrow> disk \<Rightarrow> string + disk" where
  "open_wb flt path d =
     (case flt of
        OpenFails e \<Rightarrow> Inl e
      | _ \<Rightarrow> Inr (d(path \<mapsto> [])))"

definition f_write :: "io_fault \<Rightarrow> string \<Rightarrow> bytes \<Rightarrow> disk \<Rightarrow> string option \<times> disk" where
  "f_write flt path bs d =
     (case flt of
        WriteFails e n \<Rightarrow> (Some e, d(path \<mapsto> take n bs))
      | _ \<Rightarrow> (None, d(path \<mapsto> bs)))"

text \<open>
  Modelled from the spec: \<^verbatim>\<open>FileStorage.save\<close> of Werkzeug is not among the
  sources. It is the \<open>put\<close> of section 4.1: the file at the path is opened for
  writing and the bytes of the part are copied into it; a completed call leaves
  exactly these bytes.
\<close>

definition save :: "io_fault \<Rightarrow> file_storage \<Rightarrow> string \<Rightarrow> disk \<Rightarrow> string option \<times> disk" where
  "save flt image_file path d =
     (case open_wb flt path d of
        Inl e \<Rightarrow> (Some e, d)
      | Inr d' \<Rightarrow> f_write flt path (stream image_file) d')"

text \<open>
  Modelled from the spec: \<^verbatim>\<open>send_from_directory\<close> of Flask is not among the
  sources. It is the \<open>get\<close> of sections 4.1 and 4.6: the bytes of the file of
  that name in the directory, or not-found; a name that would leave the
  directory is refused. The model follows the library: the name is normalised
  and refused when the result is absolute or starts with \<^verbatim>\<open>..\<close>, then joined to
  the directory, and the path must be a file.
\<close>

definition safe_join :: "string \<Rightarrow> string \<Rightarrow> string option" where
  "safe_join directory fname =
     (let directory' = (if directory = [] then ''.'' else directory);
          fname' = (if fname \<noteq> [] then normpath fname else fname)
      in if startswith fname' ''/'' \<or> fname' = ''..'' \<or> startswith fname' ''../''
         then None
         else Some (os_path_join directory' fname'))"

definition send_from_directory :: "string \<Rightarrow> string \<Rightarrow> disk \<Rightarrow> response" where
  "send_from_directory directory fname d =
     (case safe_join directory fname of
        None \<Rightarrow> NotFound
      | Some path \<Rightarrow>
          (case d path of
             None \<Rightarrow> NotFound
           | Some bs \<Rightarrow> File bs))"

subsection \<open>The handlers\<close>

text \<open>Lines 49 and 50: \<^verbatim>\<open>if ',' in image_data: image_data = image_data.split(',')[1]\<close>.\<close>

definition strip_prefix :: "string \<Rightarrow> string + string" where
  "strip_prefix image_data =
     (if CHR '','' \<in> set image_data
      then (case split_on CHR '','' image_data of
              _ # part # _ \<Rightarrow> Inr part
            | _ \<Rightarrow> Inl ''list index out of range'')
      else Inr image_data)"

text \<open>Lines 71 and 72: \<^verbatim>\<open>except Exception as e: return jsonify({'error': str(e)}), 500\<close>.\<close>

definition server_error :: "string \<Rightarrow> server \<Rightarrow> response \<times> server" where
  "server_error e s = (Json [(''error'', JStr e)] 500, s)"

text \<open>Lines 61 to 69: the two assignments to \<^verbatim>\<open>latest_image\<close>, then the answer.\<close>

definition update_latest :: "string \<Rightarrow> string \<Rightarrow> server \<Rightarrow> response \<times> server" where
  "update_latest fname ts s =
     (let s1 = s\<lparr>latest_image := (latest_image s)\<lparr>filename := Some fname\<rparr>\<rparr>;
          s2 = s1\<lparr>latest_image := (latest_image s1)\<lparr>timestamp := Some ts\<rparr>\<rparr>
      in (Json [(''status'', JStr ''success''), (''filename'', JStr fname),
                (''timestamp'', JStr ts)] 200, s2))"

text \<open>
  \<^verbatim>\<open>upload_image\<close> (lines 24 to 72). In the form branch the file is opened
  before its argument is decoded, so a decoding error leaves an empty file.
\<close>

definition upload_image :: "upload_env \<Rightarrow> request \<Rightarrow> server \<Rightarrow> response \<times> server" where
  "upload_image env req s =
     (if \<not> contains_key ''image'' (files req) \<and> \<not> contains_key ''image'' (form req)
      then (Json [(''error'', JStr ''No image data found'')] 400, s)
      else
        (case map_of (files req) ''image'' of
           Some image_file \<Rightarrow>
             (if fs_filename image_file = []
              then (Json [(''error'', JStr ''No image selected'')] 400, s)
              else
                let ts = strftime (now env);
                    fname = image_name ts;
                    filepath = os_path_join UPLOAD_FOLDER fname
                in (case save (fault env) image_file filepath (disk s) of
                      (Some e, d) \<Rightarrow> server_error e (s\<lparr>disk := d\<rparr>)
                    | (None, d) \<Rightarrow> update_latest fname ts (s\<lparr>disk := d\<rparr>)))
         | None \<Rightarrow>
             (case map_of (form req) ''image'' of
                None \<Rightarrow> server_error ''image'' s
              | Some image_data \<Rightarrow>
                  (case strip_prefix image_data of
                     Inl e \<Rightarrow> server_error e s
                   | Inr image_data' \<Rightarrow>
                       let ts = strftime (now env);
                           fname = image_name ts;
                           filepath = os_path_join UPLOAD_FOLDER fname
                       in (case open_wb (fault env) filepath (disk s) of
                             Inl e \<Rightarrow> server_error e s
                           | Inr d \<Rightarrow>
                               (case b64decode env image_data' of
                                  Inl e \<Rightarrow> server_error e (s\<lparr>disk := d\<rparr>)
                                | Inr bs \<Rightarrow>
                                    (case f_write (fault env) filepath bs d of
                                       (Some e, d') \<Rightarrow> server_error e (s\<lparr>disk := d'\<rparr>)
                                     | (None, d') \<Rightarrow>
                                         update_latest fname ts (s\<lparr>disk := d'\<rparr>))))))))"

text \<open>
  \<^verbatim>\<open>get_latest_image\<close> (lines 75 to 84). The test of line 77 is Python's
  truth of the value: \<^verbatim>\<open>None\<close> and the empty string are both false.
\<close>

definition get_latest_image :: "server \<Rightarrow> response" where
  "get_latest_image s =
     (case filename (latest_image s) of
        None \<Rightarrow> Json [(''error'', JStr ''No image uploaded yet'')] 404
      | Some fname \<Rightarrow>
          (if fname \<noteq> []
           then Json [(''filename'', JStr fname),
                      (''timestamp'', to_json (timestamp (latest_image s))),
                      (''url'', JStr (''/images/'' @ fname))] 200
           else Json [(''error'', JStr ''No image uploaded yet'')] 404))"

text \<open>\<^verbatim>\<open>get_image\<close> (lines 87 to 89).\<close>

definition get_image :: "string \<Rightarrow> server \<Rightarrow> response" where
  "get_image fname s = send_from_directory UPLOAD_FOLDER fname (disk s)"

text \<open>
  The route of line 86, \<^verbatim>\<open>/images/<filename>\<close>: the converter of
  \<^verbatim>\<open><filename>\<close> takes one non-empty path segment, without a slash.
\<close>

definition route_images :: "string \<Rightarrow> string option" where
  "route_images url =
     (if startswith url ''/images/'' \<and> drop 8 url \<noteq> [] \<and> CHR ''/'' \<notin> set (drop 8 url)
      then Some (drop 8 url)
      else None)"

definition fetch :: "string \<Rightarrow> server \<Rightarrow> response" where
  "fetch url s =
     (case route_images url of
        None \<Rightarrow> NotFound
      | Some fname \<Rightarrow> get_image fname s)"

subsection \<open>Sequences of requests\<close>

datatype op = Upload upload_env request | Latest | Image string

fun step :: "op \<Rightarrow> server \<Rightarrow> response \<times> server" where
  "step (Upload env req) s = upload_image env req s"
| "step Latest s = (get_latest_image s, s)"
| "step (Image fname) s = (get_image fname s, s)"

fun run :: "op list \<Rightarrow> server \<Rightarrow> server" where
  "run [] s = s"
| "run (x # xs) s = run xs (snd (step x s))"

subsection \<open>Views of the state, and examples\<close>

text \<open>The frame store: the files of the upload folder by their names.\<close>

definition frame_store :: "server \<Rightarrow> string \<rightharpoonup> bytes" where
  "frame_store s key = disk s (os_path_join UPLOAD_FOLDER key)"

text \<open>The name an upload gives its file (lines 38 and 39, 53 and 54).\<close>

definition key_of :: "upload_env \<Rightarrow> string" where
  "key_of env = image_name (strftime (now env))"

text \<open>Two readings of the clock within one second.\<close>

definition same_second :: "datetime \<Rightarrow> datetime \<Rightarrow> bool" where
  "same_second a b =
     (year a = year b \<and> month a = month b \<and> day a = day b \<and>
      hour a = hour b \<and> minute a = minute b \<and> second a = second b)"

text \<open>An operation that writes the file of this name.\<close>

fun writes_key :: "string \<Rightarrow> op \<Rightarrow> bool" where
  "writes_key key (Upload env req) = (key_of env = key)"
| "writes_key key Latest = False"
| "writes_key key (Image fname) = False"

text \<open>
  Examples. The theorems below hold for every decoder; the examples need the
  values of \<^verbatim>\<open>base64.b64decode\<close> at a few strings only. This stand-in has
  them: it decodes the four strings the examples send (without validation the
  decoder drops a comma, as it drops every character outside the alphabet) and
  answers every other string with the error of the malformed \<^verbatim>\<open>QUJ\<close>.
\<close>

definition noon :: datetime where
  "noon = \<lparr>year = 2024, month = 1, day = 1, hour = 12, minute = 0, second = 0,
            microsecond = 250000\<rparr>"

definition noon_later :: datetime where
  "noon_later = noon\<lparr>microsecond := 750000\<rparr>"

definition one_past_noon :: datetime where
  "one_past_noon = noon\<lparr>second := 1\<rparr>"

definition b64decode_examples :: "string \<Rightarrow> string + bytes" where
  "b64decode_examples x =
     (if x = [] then Inr []
      else if x = ''QUJD'' then Inr [65, 66, 67]
      else if x = ''REVG'' then Inr [68, 69, 70]
      else if x = ''QUJD,REVG'' then Inr [65, 66, 67, 68, 69, 70]
      else Inl ''Incorrect padding'')"

definition env_noon :: upload_env where
  "env_noon = \<lparr>now = noon, b64decode = b64decode_examples, fault = NoFault\<rparr>"

definition env_noon_later :: upload_env where
  "env_noon_later = \<lparr>now = noon_later, b64decode = b64decode_examples, fault = NoFault\<rparr>"

definition env_one_past_noon :: upload_env where
  "env_one_past_noon = \<lparr>now = one_past_noon, b64decode = b64decode_examples, fault = NoFault\<rparr>"

definition env_disk_full :: upload_env where
  "env_disk_full =
     \<lparr>now = one_past_noon, b64decode = b64decode_examples,
      fault = WriteFails ''[Errno 28] No space left on device'' 1\<rparr>"

definition env_read_only :: upload_env where
  "env_read_only =
     \<lparr>now = one_past_noon, b64decode = b64decode_examples,
      fault = OpenFails ''[Errno 30] Read-only file system''\<rparr>"

definition req_file :: request where
  "req_file = \<lparr>files = [(''image'', \<lparr>fs_filename = ''frame.jpg'', stream = [255, 216, 255]\<rparr>)],
               form = []\<rparr>"

definition req_both :: request where
  "req_both = \<lparr>files = [(''image'', \<lparr>fs_filename = ''frame.jpg'', stream = [255, 216, 255]\<rparr>)],
               form = [(''image'', ''QUJD'')]\<rparr>"

definition req_no_name :: request where
  "req_no_name = \<lparr>files = [(''image'', \<lparr>fs_filename = '''', stream = []\<rparr>)], form = []\<rparr>"

definition req_none :: request where
  "req_none = \<lparr>files = [], form = [(''name'', ''camera'')]\<rparr>"

definition req_plain :: request where
  "req_plain = \<lparr>files = [], form = [(''image'', ''QUJD'')]\<rparr>"

definition req_data_uri :: request where
  "req_data_uri = \<lparr>files = [], form = [(''image'', ''data:image/jpeg;base64,QUJD'')]\<rparr>"

definition req_two_commas :: request where
  "req_two_commas = \<lparr>files = [], form = [(''image'', ''data:image/jpeg;base64,QUJD,REVG'')]\<rparr>"

definition req_empty_field :: request where
  "req_empty_field = \<lparr>files = [], form = [(''image'', '''')]\<rparr>"

definition req_malformed :: request where
  "req_malformed = \<lparr>files = [], form = [(''image'', ''QUJ'')]\<rparr>"

text \<open>What holds of \<^verbatim>\<open>latest_image\<close> in every state the server reaches.\<close>

definition latest_ok :: "server \<Rightarrow> bool" where
  "latest_ok s =
     (case filename (latest_image s) of
        None \<Rightarrow> True
      | Some f \<Rightarrow>
          (\<exists>t. f = image_name (strftime t) \<and> timestamp (latest_image s) = Some (strftime t)) \<and>
          frame_store s f \<noteq> None)"

text \<open>
  The bytes a request carries, when it has any: those of the file part, or
  else the decoded field (step 1 of the processing, as the handler does it).
\<close>

definition payload :: "upload_env \<Rightarrow> request \<Rightarrow> bytes option" where
  "payload env req =
     (case map_of (files req) ''image'' of
        Some image_file \<Rightarrow> Some (stream image_file)
      | None \<Rightarrow>
          (case map_of (form req) ''image'' of
             None \<Rightarrow> None
           | Some image_data \<Rightarrow>
               (case strip_prefix image_data of
                  Inl e \<Rightarrow> None
                | Inr image_data' \<Rightarrow>
                    (case b64decode env image_data' of
                       Inl e \<Rightarrow> None
                     | Inr bs \<Rightarrow> Some bs))))"

text \<open>A path component that is a plain name.\<close>

definition plain_name :: "string \<Rightarrow> bool" where
  "plain_name c = (c \<noteq> [] \<and> c \<noteq> ''.'' \<and> c \<noteq> ''..'' \<and> CHR ''/'' \<notin> set c)"

text \<open>A disk with a file outside the upload folder.\<close>

definition server_example :: server where
  "server_example =
     \<lparr>disk = [''uploads/image_20240101_120000.jpg'' \<mapsto> [255, 216, 255],
              ''secret.txt'' \<mapsto> [1, 2, 3],
              ''uploads/../secret.txt'' \<mapsto> [1, 2, 3]],
      latest_image = \<lparr>filename = None, timestamp = None\<rparr>\<rparr>"

text \<open>
  The two assignments of lines 62 and 63, one at a time. Nothing in the source
  holds them together: no lock is taken anywhere.
\<close>

definition set_filename :: "string \<Rightarrow> server \<Rightarrow> server" where
  "set_filename fname s = s\<lparr>latest_image := (latest_image s)\<lparr>filename := Some fname\<rparr>\<rparr>"

definition set_timestamp :: "string \<Rightarrow> server \<Rightarrow> server" where
  "set_timestamp ts s = s\<lparr>latest_image := (latest_image s)\<lparr>timestamp := Some ts\<rparr>\<rparr>"

text \<open>
  The state in which an upload that answers 200 reaches line 62: its file is
  written, \<^verbatim>\<open>latest_image\<close> is as it found it.
\<close>

definition before_line_62 :: "upload_env \<Rightarrow> request \<Rightarrow> server \<Rightarrow> server" where
  "before_line_62 env req s = s\<lparr>disk := disk (snd (upload_image env req s))\<rparr>"

text \<open>The state after the upload of the examples at noon.\<close>

definition server_noon :: server where
  "server_noon = snd (upload_image env_noon req_file (initial Map.empty))"

section \<open>Names and paths\<close>

lemma digit_in: "digit n \<in> set ''0123456789''"
  unfolding digit_def by (rule nth_mem) simp

lemma digit_not_slash: "CHR ''/'' \<noteq> digit n"
  using digit_in [of n] by auto

lemma strftime_no_slash: "CHR ''/'' \<notin> set (strftime t)"
  by (simp add: strftime_def pad2_def pad4_def digit_not_slash)

lemma length_strftime: "length (strftime t) = 15"
  by (simp add: strftime_def pad2_def pad4_def)

lemma image_name_no_slash: "CHR ''/'' \<notin> set (image_name ts) \<longleftrightarrow> CHR ''/'' \<notin> set ts"
  by (simp add: image_name_def)

lemma image_name_not_dots: "image_name ts \<noteq> []" "image_name ts \<noteq> ''.''" "image_name ts \<noteq> ''..''"
  by (simp_all add: image_name_def)

lemma image_name_inj: "image_name a = image_name b \<longleftrightarrow> a = b"
  by (simp add: image_name_def)

lemma upload_path: "os_path_join UPLOAD_FOLDER (image_name ts) = ''uploads/'' @ image_name ts"
  by (simp add: os_path_join_def UPLOAD_FOLDER_def startswith_def image_name_def)

lemma upload_path_inj:
  "os_path_join UPLOAD_FOLDER (image_name a) = os_path_join UPLOAD_FOLDER (image_name b) \<longleftrightarrow> a = b"
  by (simp add: upload_path image_name_inj)

lemma split_on_no_sep: "c \<notin> set xs \<Longrightarrow> split_on c xs = [xs]"
  by (induction xs) auto

lemma split_on_parts: "p \<in> set (split_on c xs) \<Longrightarrow> c \<notin> set p"
  by (induction xs arbitrary: p) (auto split: if_splits list.splits)

lemma no_slash_not_abs: "CHR ''/'' \<notin> set f \<Longrightarrow> \<not> startswith f (CHR ''/'' # r)"
  by (cases f) (auto simp: startswith_def)

lemma no_slash_not_up:
  assumes "CHR ''/'' \<notin> set f"
  shows "\<not> startswith f ''../''"
proof
  assume "startswith f ''../''"
  then have "take (length ''../'') f = ''../''"
    by (simp only: startswith_def)
  then have "set (take (length ''../'') f) = set ''../''"
    by (rule arg_cong)
  moreover have "CHR ''/'' \<in> set ''../''"
    by simp
  ultimately have "CHR ''/'' \<in> set (take (length ''../'') f)"
    by (simp only:)
  then show False
    using assms by (blast dest: in_set_takeD)
qed

lemma normpath_plain:
  assumes "CHR ''/'' \<notin> set f" "f \<noteq> []" "f \<noteq> ''.''"
  shows "normpath f = f"
  using assms no_slash_not_abs [of f "[]"]
  by (simp add: normpath_def split_on_no_sep normpath_step_def Let_def)

lemma safe_join_plain:
  assumes "CHR ''/'' \<notin> set f" "f \<noteq> ''..''" "f \<noteq> ''.''"
  shows "safe_join UPLOAD_FOLDER f = Some (os_path_join UPLOAD_FOLDER f)"
proof (cases "f = []")
  case True
  then show ?thesis
    by (simp add: safe_join_def UPLOAD_FOLDER_def startswith_def)
next
  case False
  with assms have "normpath f = f"
    by (simp add: normpath_plain)
  with assms False show ?thesis
    using no_slash_not_abs [of f "[]"] no_slash_not_up [of f]
    by (simp add: safe_join_def UPLOAD_FOLDER_def)
qed

lemma safe_join_dot: "safe_join UPLOAD_FOLDER ''.'' = Some (os_path_join UPLOAD_FOLDER ''.'')"
  by (simp add: safe_join_def UPLOAD_FOLDER_def startswith_def normpath_def normpath_step_def)

lemma safe_join_no_slash:
  assumes "CHR ''/'' \<notin> set f" "f \<noteq> ''..''"
  shows "safe_join UPLOAD_FOLDER f = Some (os_path_join UPLOAD_FOLDER f)"
  using assms safe_join_plain [of f] safe_join_dot by (cases "f = ''.''") simp_all

lemma get_image_no_slash:
  assumes "CHR ''/'' \<notin> set f" "f \<noteq> ''..''"
  shows "get_image f s =
    (case disk s (os_path_join UPLOAD_FOLDER f) of None \<Rightarrow> NotFound | Some bs \<Rightarrow> File bs)"
  using assms by (simp add: get_image_def send_from_directory_def safe_join_no_slash)

section \<open>The upload handler\<close>

lemmas upload_defs =
  upload_image_def server_error_def update_latest_def save_def open_wb_def f_write_def
  contains_key_def Let_def

lemma upload_statuses:
  "status (fst (upload_image env req s)) \<in> {200, 400, 500}"
  by (auto simp: upload_defs split: option.splits sum.splits io_fault.splits)

lemma upload_failed_latest:
  "status (fst (upload_image env req s)) \<noteq> 200 \<Longrightarrow>
   latest_image (snd (upload_image env req s)) = latest_image s"
  by (auto simp: upload_defs split: option.splits sum.splits io_fault.splits if_splits)

lemma upload_ok_response:
  "status (fst (upload_image env req s)) = 200 \<Longrightarrow>
   fst (upload_image env req s) =
     Json [(''status'', JStr ''success''), (''filename'', JStr (key_of env)),
           (''timestamp'', JStr (strftime (now env)))] 200"
  by (auto simp: upload_defs key_of_def split: option.splits sum.splits io_fault.splits if_splits)

lemma upload_ok_latest:
  "status (fst (upload_image env req s)) = 200 \<Longrightarrow>
   latest_image (snd (upload_image env req s)) =
     \<lparr>filename = Some (key_of env), timestamp = Some (strftime (now env))\<rparr>"
  by (auto simp: upload_defs key_of_def split: option.splits sum.splits io_fault.splits if_splits)

lemma upload_ok_stored:
  "status (fst (upload_image env req s)) = 200 \<Longrightarrow>
   frame_store (snd (upload_image env req s)) (key_of env) \<noteq> None"
  by (auto simp: upload_defs key_of_def frame_store_def split: option.splits sum.splits io_fault.splits if_splits)

lemma upload_keeps_files:
  "disk s p \<noteq> None \<Longrightarrow> disk (snd (upload_image env req s)) p \<noteq> None"
  by (auto simp: upload_defs split: option.splits sum.splits io_fault.splits if_splits)

lemma upload_other_file:
  "p \<noteq> os_path_join UPLOAD_FOLDER (key_of env) \<Longrightarrow>
   disk (snd (upload_image env req s)) p = disk s p"
  by (auto simp: upload_defs key_of_def split: option.splits sum.splits io_fault.splits if_splits)

lemma latest_ok_initial: "latest_ok (initial d)"
  by (simp add: latest_ok_def initial_def)

lemma latest_ok_upload:
  assumes "latest_ok s"
  shows "latest_ok (snd (upload_image env req s))"
proof (cases "status (fst (upload_image env req s)) = 200")
  case True
  then show ?thesis
    using upload_ok_latest [OF True] upload_ok_stored [OF True]
    by (auto simp: latest_ok_def key_of_def)
next
  case False
  then have "latest_image (snd (upload_image env req s)) = latest_image s"
    by (rule upload_failed_latest)
  with assms show ?thesis
    using upload_keeps_files [of s _ env req]
    by (fastforce simp: latest_ok_def frame_store_def split: option.splits)
qed

lemma latest_ok_step: "latest_ok s \<Longrightarrow> latest_ok (snd (step x s))"
  by (cases x) (simp_all add: latest_ok_upload)

lemma latest_ok_run: "latest_ok s \<Longrightarrow> latest_ok (run ops s)"
  by (induction ops arbitrary: s) (simp_all add: latest_ok_step)

lemma reached_latest_ok: "latest_ok (run ops (initial d))"
  by (simp add: latest_ok_run latest_ok_initial)

lemma strftime_noon: "strftime noon = ''20240101_120000''"
  by (simp add: strftime_def noon_def pad2_def pad4_def digit_def)
lemma strftime_noon_later: "strftime noon_later = ''20240101_120000''"
  by (simp add: strftime_def noon_def noon_later_def pad2_def pad4_def digit_def)
lemma strftime_one_past_noon: "strftime one_past_noon = ''20240101_120001''"
  by (simp add: strftime_def noon_def one_past_noon_def pad2_def pad4_def digit_def)

lemmas example_defs =
  env_noon_def env_noon_later_def env_one_past_noon_def env_disk_full_def env_read_only_def
  req_file_def req_both_def req_no_name_def req_none_def req_plain_def req_data_uri_def
  req_two_commas_def req_empty_field_def req_malformed_def b64decode_examples_def
  strftime_noon strftime_noon_later strftime_one_past_noon

lemmas eval_defs =
  upload_defs example_defs initial_def image_name_def os_path_join_def UPLOAD_FOLDER_def
  startswith_def strip_prefix_def frame_store_def key_of_def

lemma upload_response_any_state:
  "fst (upload_image env req s) = fst (upload_image env req s')"
  by (auto simp: upload_defs split: option.splits sum.splits io_fault.splits if_splits)

lemma upload_ok_state:
  "status (fst (upload_image env req s)) = 200 \<Longrightarrow>
   \<exists>bs. payload env req = Some bs \<and>
     snd (upload_image env req s) =
       s\<lparr>disk := (disk s)(os_path_join UPLOAD_FOLDER (key_of env) \<mapsto> bs),
         latest_image := \<lparr>filename = Some (key_of env), timestamp = Some (strftime (now env))\<rparr>\<rparr>"
  by (auto simp: upload_defs key_of_def payload_def split: option.splits sum.splits io_fault.splits if_splits)

lemma upload_file_part:
  assumes "map_of (files req) ''image'' = Some image_file" "fs_filename image_file \<noteq> []"
    "fault env = NoFault"
  shows "upload_image env req s =
    (Json [(''status'', JStr ''success''), (''filename'', JStr (key_of env)),
           (''timestamp'', JStr (strftime (now env)))] 200,
     s\<lparr>disk := (disk s)(os_path_join UPLOAD_FOLDER (key_of env) \<mapsto> stream image_file),
       latest_image := \<lparr>filename = Some (key_of env), timestamp = Some (strftime (now env))\<rparr>\<rparr>)"
  using assms by (simp add: upload_defs key_of_def)

lemma key_of_no_slash: "CHR ''/'' \<notin> set (key_of env)"
  by (simp add: key_of_def image_name_no_slash strftime_no_slash)

lemma key_of_not_dots: "key_of env \<noteq> []" "key_of env \<noteq> ''..''"
  by (simp_all add: key_of_def image_name_not_dots)

lemma get_image_key:
  "get_image (key_of env) s =
     (case frame_store s (key_of env) of None \<Rightarrow> NotFound | Some bs \<Rightarrow> File bs)"
  by (simp add: get_image_no_slash key_of_no_slash key_of_not_dots frame_store_def)

lemma step_other_key:
  "\<not> writes_key (key_of env) x \<Longrightarrow> frame_store (snd (step x s)) (key_of env) = frame_store s (key_of env)"
proof (cases x)
  case (Upload env' req')
  assume "\<not> writes_key (key_of env) x"
  with Upload have "key_of env' \<noteq> key_of env"
    by simp
  then have "os_path_join UPLOAD_FOLDER (key_of env) \<noteq> os_path_join UPLOAD_FOLDER (key_of env')"
    by (auto simp: key_of_def upload_path_inj image_name_inj)
  then show ?thesis
    using Upload by (simp add: frame_store_def upload_other_file)
qed simp_all

lemma run_other_keys:
  "\<forall>x \<in> set ops. \<not> writes_key (key_of env) x \<Longrightarrow>
   frame_store (run ops s) (key_of env) = frame_store s (key_of env)"
  by (induction ops arbitrary: s) (simp_all add: step_other_key)

text \<open>
  C2. An upload with a file part named \<^verbatim>\<open>image\<close> whose file name is not empty,
  on a disk that takes the write, answers 200 with the status, the file name and
  the timestamp; the query that follows gives this file name, and retrieving the
  name gives the bytes of the part, also after any further requests that do not
  write the file of this name.
\<close>

theorem file_upload_round_trip:
  assumes "map_of (files req) ''image'' = Some image_file"
    and "fs_filename image_file \<noteq> []"
    and "fault env = NoFault"
    and "\<forall>x \<in> set ops. \<not> writes_key (key_of env) x"
  shows "fst (upload_image env req s) =
      Json [(''status'', JStr ''success''), (''filename'', JStr (key_of env)),
            (''timestamp'', JStr (strftime (now env)))] 200 \<and>
    get_latest_image (snd (upload_image env req s)) =
      Json [(''filename'', JStr (key_of env)), (''timestamp'', JStr (strftime (now env))),
            (''url'', JStr (''/images/'' @ key_of env))] 200 \<and>
    get_image (key_of env) (run ops (snd (upload_image env req s))) = File (stream image_file)"
proof -
  let ?s' = "snd (upload_image env req s)"
  note up = upload_file_part [OF assms(1-3), of s]
  have "frame_store ?s' (key_of env) = Some (stream image_file)"
    by (simp add: up frame_store_def)
  then have "frame_store (run ops ?s') (key_of env) = Some (stream image_file)"
    using run_other_keys [OF assms(4), of ?s'] by simp
  then have "get_image (key_of env) (run ops ?s') = File (stream image_file)"
    by (simp add: get_image_key)
  moreover have "get_latest_image ?s' =
      Json [(''filename'', JStr (key_of env)), (''timestamp'', JStr (strftime (now env))),
            (''url'', JStr (''/images/'' @ key_of env))] 200"
    by (simp add: up get_latest_image_def key_of_not_dots)
  ultimately show ?thesis
    by (simp add: up)
qed

lemma key_noon: "key_of env_noon = ''image_20240101_120000.jpg''"
  by (simp add: key_of_def env_noon_def strftime_noon image_name_def)
lemma key_noon_later: "key_of env_noon_later = ''image_20240101_120000.jpg''"
  by (simp add: key_of_def env_noon_later_def strftime_noon_later image_name_def)
lemma key_one_past_noon: "key_of env_one_past_noon = ''image_20240101_120001.jpg''"
  by (simp add: key_of_def env_one_past_noon_def strftime_one_past_noon image_name_def)

theorem file_upload_round_trip_witness:
  "fst (upload_image env_noon req_file (initial Map.empty)) =
      Json [(''status'', JStr ''success''), (''filename'', JStr ''image_20240101_120000.jpg''),
            (''timestamp'', JStr ''20240101_120000'')] 200 \<and>
   get_latest_image (snd (upload_image env_noon req_file (initial Map.empty))) =
      Json [(''filename'', JStr ''image_20240101_120000.jpg''),
            (''timestamp'', JStr ''20240101_120000''),
            (''url'', JStr ''/images/image_20240101_120000.jpg'')] 200 \<and>
   get_image ''image_20240101_120000.jpg''
      (run [Latest, Upload env_one_past_noon req_plain, Image ''image_20240101_120001.jpg'']
         (snd (upload_image env_noon req_file (initial Map.empty)))) = File [255, 216, 255]"
  using file_upload_round_trip [of req_file "\<lparr>fs_filename = ''frame.jpg'', stream = [255, 216, 255]\<rparr>"
      env_noon "[Latest, Upload env_one_past_noon req_plain, Image ''image_20240101_120001.jpg'']"
      "initial Map.empty"]
  by (simp add: key_noon key_one_past_noon) (simp add: example_defs)

lemma same_second_strftime: "same_second a b \<Longrightarrow> strftime a = strftime b"
  by (simp add: same_second_def strftime_def)

lemma length_key_of: "length (key_of env) = 25"
  by (simp add: key_of_def image_name_def length_strftime)

text \<open>
  C4. The file name is made of the clock's reading down to the second and of
  nothing else, as \<^verbatim>\<open>image_YYYYMMDD_HHMMSS.jpg\<close>. Two uploads within one
  second have the same name: after both have answered 200, the file holds the
  bytes of the later one, \<^verbatim>\<open>latest_image\<close> is what the later one set, and
  the state is the one the later upload alone would have left.
\<close>

theorem same_second_last_write_wins:
  "key_of env = ''image_'' @ pad4 (year (now env)) @ pad2 (month (now env)) @
      pad2 (day (now env)) @ ''_'' @ pad2 (hour (now env)) @ pad2 (minute (now env)) @
      pad2 (second (now env)) @ ''.jpg'' \<and>
   length (key_of env) = 25 \<and>
   (same_second (now e1) (now e2) \<longrightarrow> key_of e1 = key_of e2) \<and>
   (same_second (now e1) (now e2) \<and>
    status (fst (upload_image e1 r1 s)) = 200 \<and>
    status (fst (upload_image e2 r2 (snd (upload_image e1 r1 s)))) = 200 \<longrightarrow>
      fst (upload_image e2 r2 (snd (upload_image e1 r1 s))) = fst (upload_image e1 r1 s) \<and>
      payload e2 r2 \<noteq> None \<and>
      frame_store (snd (upload_image e2 r2 (snd (upload_image e1 r1 s)))) (key_of e1) = payload e2 r2 \<and>
      latest_image (snd (upload_image e2 r2 (snd (upload_image e1 r1 s)))) =
        \<lparr>filename = Some (key_of e2), timestamp = Some (strftime (now e2))\<rparr> \<and>
      snd (upload_image e2 r2 (snd (upload_image e1 r1 s))) = snd (upload_image e2 r2 s))"
proof (intro conjI impI)
  show "key_of env = ''image_'' @ pad4 (year (now env)) @ pad2 (month (now env)) @
      pad2 (day (now env)) @ ''_'' @ pad2 (hour (now env)) @ pad2 (minute (now env)) @
      pad2 (second (now env)) @ ''.jpg''"
    by (simp add: key_of_def image_name_def strftime_def)
  show "length (key_of env) = 25"
    by (rule length_key_of)
  show "key_of e1 = key_of e2" if "same_second (now e1) (now e2)"
    using that by (simp add: key_of_def same_second_strftime)
next
  assume h: "same_second (now e1) (now e2) \<and>
    status (fst (upload_image e1 r1 s)) = 200 \<and>
    status (fst (upload_image e2 r2 (snd (upload_image e1 r1 s)))) = 200"
  let ?s1 = "snd (upload_image e1 r1 s)"
  let ?p = "os_path_join UPLOAD_FOLDER (key_of e2)"
  let ?l = "\<lparr>filename = Some (key_of e2), timestamp = Some (strftime (now e2))\<rparr>"
  from h have ts: "strftime (now e1) = strftime (now e2)"
    by (simp add: same_second_strftime)
  then have key: "key_of e1 = key_of e2"
    by (simp add: key_of_def)
  from h have ok1: "status (fst (upload_image e1 r1 s)) = 200"
    and ok2: "status (fst (upload_image e2 r2 ?s1)) = 200"
    by simp_all
  from ok2 have ok2': "status (fst (upload_image e2 r2 s)) = 200"
    using upload_response_any_state [of e2 r2 s ?s1] by simp
  obtain b1 where s1: "?s1 = s\<lparr>disk := (disk s)(?p \<mapsto> b1), latest_image := ?l\<rparr>"
    using upload_ok_state [OF ok1] key ts by auto
  obtain b2 where b2: "payload e2 r2 = Some b2"
    and s2: "snd (upload_image e2 r2 ?s1) = ?s1\<lparr>disk := (disk ?s1)(?p \<mapsto> b2), latest_image := ?l\<rparr>"
    using upload_ok_state [OF ok2] by auto
  obtain b2' where b2': "payload e2 r2 = Some b2'"
    and s2': "snd (upload_image e2 r2 s) = s\<lparr>disk := (disk s)(?p \<mapsto> b2'), latest_image := ?l\<rparr>"
    using upload_ok_state [OF ok2'] by auto
  from b2 b2' have same: "b2' = b2"
    by simp
  have final: "snd (upload_image e2 r2 ?s1) = s\<lparr>disk := (disk s)(?p \<mapsto> b2), latest_image := ?l\<rparr>"
    by (simp add: s2) (simp add: s1)
  show "fst (upload_image e2 r2 ?s1) = fst (upload_image e1 r1 s)"
    by (simp add: upload_ok_response [OF ok1] upload_ok_response [OF ok2] key ts)
  show "payload e2 r2 \<noteq> None"
    by (simp add: b2)
  show "frame_store (snd (upload_image e2 r2 ?s1)) (key_of e1) = payload e2 r2"
    by (simp add: final frame_store_def key b2)
  show "latest_image (snd (upload_image e2 r2 ?s1)) = ?l"
    by (simp add: final)
  show "snd (upload_image e2 r2 ?s1) = snd (upload_image e2 r2 s)"
    by (simp add: final s2' same)
qed

lemma noon_same_second: "same_second noon noon_later"
  by (simp add: same_second_def noon_later_def)

lemma noon_microseconds: "microsecond noon \<noteq> microsecond noon_later"
  by (simp add: noon_def noon_later_def)

theorem same_second_last_write_wins_witness:
  "same_second (now env_noon) (now env_noon_later) \<and>
   microsecond (now env_noon) \<noteq> microsecond (now env_noon_later) \<and>
   key_of env_noon = ''image_20240101_120000.jpg'' \<and>
   key_of env_noon_later = ''image_20240101_120000.jpg'' \<and>
   status (fst (upload_image env_noon req_file (initial Map.empty))) = 200 \<and>
   status (fst (upload_image env_noon_later req_plain
      (snd (upload_image env_noon req_file (initial Map.empty))))) = 200 \<and>
   frame_store (snd (upload_image env_noon_later req_plain
      (snd (upload_image env_noon req_file (initial Map.empty)))))
      ''image_20240101_120000.jpg'' = Some [65, 66, 67] \<and>
   latest_image (snd (upload_image env_noon_later req_plain
      (snd (upload_image env_noon req_file (initial Map.empty))))) =
      \<lparr>filename = Some ''image_20240101_120000.jpg'', timestamp = Some ''20240101_120000''\<rparr>"
  using same_second_last_write_wins [of env_noon env_noon env_noon_later req_file
      "initial Map.empty" req_plain]
  by (simp add: key_noon key_noon_later noon_same_second noon_microseconds)
     (simp add: eval_defs payload_def noon_same_second noon_microseconds)

lemma fetch_image_url:
  assumes "CHR ''/'' \<notin> set f" "f \<noteq> []"
  shows "fetch (''/images/'' @ f) s = get_image f s"
  using assms by (simp add: fetch_def route_images_def startswith_def)

lemma get_latest_image_none:
  "filename (latest_image s) = None \<Longrightarrow>
   get_latest_image s = Json [(''error'', JStr ''No image uploaded yet'')] 404"
  by (simp add: get_latest_image_def)

lemma get_latest_image_some:
  assumes "latest_ok s" "filename (latest_image s) = Some f"
  shows "\<exists>ts bs. timestamp (latest_image s) = Some ts \<and>
    get_latest_image s =
      Json [(''filename'', JStr f), (''timestamp'', JStr ts), (''url'', JStr (''/images/'' @ f))] 200 \<and>
    frame_store s f = Some bs \<and> fetch (''/images/'' @ f) s = File bs"
proof -
  from assms obtain t bs where f: "f = image_name (strftime t)"
    and ts: "timestamp (latest_image s) = Some (strftime t)"
    and bs: "frame_store s f = Some bs"
    by (auto simp: latest_ok_def)
  from f have plain: "CHR ''/'' \<notin> set f" "f \<noteq> []" "f \<noteq> ''..''"
    by (simp_all add: image_name_no_slash strftime_no_slash image_name_not_dots)
  have "get_image f s = File bs"
    using bs by (simp add: get_image_no_slash plain frame_store_def)
  then have "fetch (''/images/'' @ f) s = File bs"
    using fetch_image_url [OF plain(1,2), of s] by simp
  moreover have "get_latest_image s =
      Json [(''filename'', JStr f), (''timestamp'', JStr (strftime t)),
            (''url'', JStr (''/images/'' @ f))] 200"
    using assms(2) plain by (simp add: get_latest_image_def ts)
  ultimately show ?thesis
    using ts bs by simp
qed

text \<open>
  C5. In every state the server reaches, the query answers 404 with an error
  body exactly when \<^verbatim>\<open>latest_image\<close> holds no file name. When it holds one, the
  query answers 200 with the file name, the timestamp and the URL
  \<^verbatim>\<open>/images/<filename>\<close>, and fetching this URL gives the bytes the frame
  store holds under the name. The query changes nothing.
\<close>

theorem latest_query:
  assumes "s = run ops (initial d)"
  shows "(get_latest_image s = Json [(''error'', JStr ''No image uploaded yet'')] 404
            \<longleftrightarrow> filename (latest_image s) = None) \<and>
    (status (get_latest_image s) = 404 \<longleftrightarrow> filename (latest_image s) = None) \<and>
    (\<forall>f. filename (latest_image s) = Some f \<longrightarrow>
       (\<exists>ts bs. timestamp (latest_image s) = Some ts \<and>
          get_latest_image s =
            Json [(''filename'', JStr f), (''timestamp'', JStr ts),
                  (''url'', JStr (''/images/'' @ f))] 200 \<and>
          frame_store s f = Some bs \<and> fetch (''/images/'' @ f) s = File bs)) \<and>
    step Latest s = (get_latest_image s, s)"
proof -
  have ok: "latest_ok s"
    unfolding assms by (rule reached_latest_ok)
  show ?thesis
  proof (cases "filename (latest_image s)")
    case None
    then show ?thesis
      by (simp add: get_latest_image_none)
  next
    case (Some f)
    from get_latest_image_some [OF ok Some] show ?thesis
      using Some by auto
  qed
qed

theorem latest_query_witness:
  "get_latest_image (run [] (initial Map.empty)) =
     Json [(''error'', JStr ''No image uploaded yet'')] 404 \<and>
   get_latest_image (run [Upload env_noon req_file] (initial Map.empty)) =
     Json [(''filename'', JStr ''image_20240101_120000.jpg''),
           (''timestamp'', JStr ''20240101_120000''),
           (''url'', JStr ''/images/image_20240101_120000.jpg'')] 200 \<and>
   fetch ''/images/image_20240101_120000.jpg''
     (run [Upload env_noon req_file] (initial Map.empty)) = File [255, 216, 255]"
  using latest_query [of "run [] (initial Map.empty)" "[]" Map.empty]
    latest_query [of "run [Upload env_noon req_file] (initial Map.empty)"
      "[Upload env_noon req_file]" Map.empty]
  by (simp add: eval_defs get_latest_image_def)

text \<open>
  C10. When the request has a file part named \<^verbatim>\<open>image\<close>, the form fields
  play no part: whatever they are, the answer and the state are the same, and the
  file of an upload that answers 200 holds the bytes of the file part.
\<close>

theorem file_part_before_form_field:
  assumes "map_of (files req) ''image'' = Some image_file"
  shows "upload_image env (req\<lparr>form := fm\<rparr>) s = upload_image env req s \<and>
    (status (fst (upload_image env req s)) = 200 \<longrightarrow>
       frame_store (snd (upload_image env req s)) (key_of env) = Some (stream image_file))"
  using assms
  by (auto simp: upload_defs frame_store_def key_of_def split: io_fault.splits)

theorem file_part_before_form_field_witness:
  "map_of (files req_both) ''image'' = Some \<lparr>fs_filename = ''frame.jpg'', stream = [255, 216, 255]\<rparr> \<and>
   map_of (form req_both) ''image'' = Some ''QUJD'' \<and>
   upload_image env_noon (req_both\<lparr>form := []\<rparr>) (initial Map.empty) =
     upload_image env_noon req_both (initial Map.empty) \<and>
   status (fst (upload_image env_noon req_both (initial Map.empty))) = 200 \<and>
   frame_store (snd (upload_image env_noon req_both (initial Map.empty)))
     ''image_20240101_120000.jpg'' = Some [255, 216, 255]"
  using file_part_before_form_field [of req_both
      "\<lparr>fs_filename = ''frame.jpg'', stream = [255, 216, 255]\<rparr>" env_noon "[]"
      "initial Map.empty"]
  by (simp add: key_noon) (simp add: eval_defs)

lemma split_on_not_Nil: "split_on c xs \<noteq> []"
  by (induction xs) (auto split: list.splits)

lemma split_on_two: "c \<in> set xs \<Longrightarrow> \<exists>a b r. split_on c xs = a # b # r"
proof (induction xs)
  case Nil
  then show ?case by simp
next
  case (Cons x xs)
  show ?case
  proof (cases "x = c")
    case True
    then show ?thesis
      using split_on_not_Nil [of c xs] by (cases "split_on c xs") auto
  next
    case False
    with Cons show ?thesis
      by auto
  qed
qed

lemma strip_prefix_returns: "\<exists>x. strip_prefix v = Inr x"
proof (cases "CHR '','' \<in> set v")
  case True
  from split_on_two [OF True] show ?thesis
    using True by (auto simp: strip_prefix_def)
next
  case False
  then show ?thesis
    by (simp add: strip_prefix_def)
qed

lemma upload_400:
  "status (fst (upload_image env req s)) = 400 \<longleftrightarrow>
     (\<not> contains_key ''image'' (files req) \<and> \<not> contains_key ''image'' (form req)) \<or>
     (\<exists>image_file. map_of (files req) ''image'' = Some image_file \<and> fs_filename image_file = [])"
  by (auto simp: upload_defs split: option.splits sum.splits io_fault.splits)

text \<open>
  C6, as the code has it. A request with no \<^verbatim>\<open>image\<close> among its file parts and
  its form fields, or whose \<^verbatim>\<open>image\<close> file part has an empty file name, is
  answered 400 with an \<^verbatim>\<open>error\<close> body, and the state is unchanged; no other
  request is answered 400.
\<close>

theorem missing_image_is_400:
  "(\<not> contains_key ''image'' (files req) \<and> \<not> contains_key ''image'' (form req) \<longrightarrow>
      upload_image env req s = (Json [(''error'', JStr ''No image data found'')] 400, s)) \<and>
   (map_of (files req) ''image'' = Some image_file \<and> fs_filename image_file = [] \<longrightarrow>
      upload_image env req s = (Json [(''error'', JStr ''No image selected'')] 400, s)) \<and>
   (status (fst (upload_image env req s)) = 400 \<longleftrightarrow>
      (\<not> contains_key ''image'' (files req) \<and> \<not> contains_key ''image'' (form req)) \<or>
      (\<exists>f. map_of (files req) ''image'' = Some f \<and> fs_filename f = []))"
proof (intro conjI impI)
  assume "\<not> contains_key ''image'' (files req) \<and> \<not> contains_key ''image'' (form req)"
  then show "upload_image env req s = (Json [(''error'', JStr ''No image data found'')] 400, s)"
    by (simp add: upload_image_def)
next
  assume "map_of (files req) ''image'' = Some image_file \<and> fs_filename image_file = []"
  then show "upload_image env req s = (Json [(''error'', JStr ''No image selected'')] 400, s)"
    by (simp add: upload_image_def contains_key_def)
next
  show "status (fst (upload_image env req s)) = 400 \<longleftrightarrow>
      (\<not> contains_key ''image'' (files req) \<and> \<not> contains_key ''image'' (form req)) \<or>
      (\<exists>f. map_of (files req) ''image'' = Some f \<and> fs_filename f = [])"
    by (rule upload_400)
qed

theorem missing_image_is_400_witness:
  "upload_image env_noon req_none (initial Map.empty) =
     (Json [(''error'', JStr ''No image data found'')] 400, initial Map.empty) \<and>
   upload_image env_noon req_no_name (initial Map.empty) =
     (Json [(''error'', JStr ''No image selected'')] 400, initial Map.empty) \<and>
   status (fst (upload_image env_noon req_file (initial Map.empty))) \<noteq> 400"
  using missing_image_is_400 [of req_none env_noon "initial Map.empty"]
    missing_image_is_400 [of req_no_name env_noon "initial Map.empty"
      "\<lparr>fs_filename = '''', stream = []\<rparr>"]
    missing_image_is_400 [of req_file env_noon "initial Map.empty"]
  by (simp add: example_defs contains_key_def)

text \<open>
  C6 also names an empty \<^verbatim>\<open>image\<close> form field. Such a request is
  not refused: the empty string is decoded like any other, the empty file is
  written and \<^verbatim>\<open>latest_image\<close> is set. Whatever the decoder and the disk do,
  the answer is 200 or 500.
\<close>

theorem empty_image_field_counterexample:
  "map_of (files req_empty_field) ''image'' = None \<and>
   map_of (form req_empty_field) ''image'' = Some [] \<and>
   fst (upload_image env_noon req_empty_field (initial Map.empty)) =
     Json [(''status'', JStr ''success''), (''filename'', JStr ''image_20240101_120000.jpg''),
           (''timestamp'', JStr ''20240101_120000'')] 200 \<and>
   latest_image (snd (upload_image env_noon req_empty_field (initial Map.empty))) =
     \<lparr>filename = Some ''image_20240101_120000.jpg'', timestamp = Some ''20240101_120000''\<rparr> \<and>
   frame_store (snd (upload_image env_noon req_empty_field (initial Map.empty)))
     ''image_20240101_120000.jpg'' = Some [] \<and>
   (\<forall>env s. status (fst (upload_image env req_empty_field s)) \<in> {200, 500})"
proof -
  have "\<forall>env s. status (fst (upload_image env req_empty_field s)) \<in> {200, 500}"
    by (auto simp: upload_defs req_empty_field_def strip_prefix_def
        split: option.splits sum.splits io_fault.splits)
  then show ?thesis
    by (simp add: eval_defs)
qed

lemma upload_500:
  "status (fst (upload_image env req s)) = 500 \<Longrightarrow>
   \<exists>e. fst (upload_image env req s) = Json [(''error'', JStr e)] 500 \<and>
     (fault env = OpenFails e \<or> (\<exists>n. fault env = WriteFails e n) \<or>
      (\<exists>x. b64decode env x = Inl e))"
  using strip_prefix_returns
  by (auto simp: upload_defs split: option.splits sum.splits io_fault.splits if_splits)
    (metis Inl_Inr_False)

lemma upload_file_part_faults:
  assumes "map_of (files req) ''image'' = Some image_file" "fs_filename image_file \<noteq> []"
  shows "fault env = OpenFails e \<Longrightarrow>
      upload_image env req s = (Json [(''error'', JStr e)] 500, s)"
    and "fault env = WriteFails e n \<Longrightarrow>
      fst (upload_image env req s) = Json [(''error'', JStr e)] 500"
  using assms by (simp_all add: upload_defs)

lemma upload_form_field_faults:
  assumes "map_of (files req) ''image'' = None" "map_of (form req) ''image'' = Some image_data"
    "strip_prefix image_data = Inr x"
  shows "fault env = OpenFails e \<Longrightarrow>
      upload_image env req s = (Json [(''error'', JStr e)] 500, s)"
    and "(\<forall>e'. fault env \<noteq> OpenFails e') \<and> b64decode env x = Inl e \<Longrightarrow>
      fst (upload_image env req s) = Json [(''error'', JStr e)] 500"
    and "b64decode env x = Inr bs \<and> fault env = WriteFails e n \<Longrightarrow>
      fst (upload_image env req s) = Json [(''error'', JStr e)] 500"
  using assms by (auto simp: upload_defs split: io_fault.splits)

text \<open>
  C7. The handler always answers, with 200, 400 or 500. A failure of the store
  write (the file cannot be opened, or the write breaks off) or of the decoding
  is answered 500 with the failure's message as the \<^verbatim>\<open>error\<close> of the body;
  every 500 carries the message of such a failure; and an upload that does not
  answer 200 leaves \<^verbatim>\<open>latest_image\<close> as it was. (The two assignments to
  \<^verbatim>\<open>latest_image\<close> themselves do not fail.)
\<close>

theorem failures_are_answered_500:
  "status (fst (upload_image env req s)) \<in> {200, 400, 500} \<and>
   (status (fst (upload_image env req s)) \<noteq> 200 \<longrightarrow>
      latest_image (snd (upload_image env req s)) = latest_image s) \<and>
   (map_of (files req) ''image'' = Some image_file \<and> fs_filename image_file \<noteq> [] \<longrightarrow>
      (fault env = OpenFails e \<longrightarrow>
         upload_image env req s = (Json [(''error'', JStr e)] 500, s)) \<and>
      (fault env = WriteFails e n \<longrightarrow>
         fst (upload_image env req s) = Json [(''error'', JStr e)] 500)) \<and>
   (map_of (files req) ''image'' = None \<and> map_of (form req) ''image'' = Some image_data \<and>
    strip_prefix image_data = Inr x \<longrightarrow>
      (fault env = OpenFails e \<longrightarrow>
         upload_image env req s = (Json [(''error'', JStr e)] 500, s)) \<and>
      ((\<forall>e'. fault env \<noteq> OpenFails e') \<and> b64decode env x = Inl e \<longrightarrow>
         fst (upload_image env req s) = Json [(''error'', JStr e)] 500) \<and>
      (b64decode env x = Inr bs \<and> fault env = WriteFails e n \<longrightarrow>
         fst (upload_image env req s) = Json [(''error'', JStr e)] 500)) \<and>
   (status (fst (upload_image env req s)) = 500 \<longrightarrow>
      (\<exists>e. fst (upload_image env req s) = Json [(''error'', JStr e)] 500 \<and>
         (fault env = OpenFails e \<or> (\<exists>n. fault env = WriteFails e n) \<or>
          (\<exists>x. b64decode env x = Inl e))))"
proof (intro conjI impI)
  show "status (fst (upload_image env req s)) \<in> {200, 400, 500}"
    by (rule upload_statuses)
  show "latest_image (snd (upload_image env req s)) = latest_image s"
    if "status (fst (upload_image env req s)) \<noteq> 200"
    using that by (rule upload_failed_latest)
  show "\<exists>e. fst (upload_image env req s) = Json [(''error'', JStr e)] 500 \<and>
      (fault env = OpenFails e \<or> (\<exists>n. fault env = WriteFails e n) \<or>
       (\<exists>x. b64decode env x = Inl e))"
    if "status (fst (upload_image env req s)) = 500"
    using that by (rule upload_500)
next
  assume part: "map_of (files req) ''image'' = Some image_file \<and> fs_filename image_file \<noteq> []"
  show "upload_image env req s = (Json [(''error'', JStr e)] 500, s)"
    if "fault env = OpenFails e"
    using part that by (simp add: upload_file_part_faults)
  show "fst (upload_image env req s) = Json [(''error'', JStr e)] 500"
    if "fault env = WriteFails e n"
    using part that upload_file_part_faults(2) [of req image_file env e n s] by simp
next
  assume field: "map_of (files req) ''image'' = None \<and>
    map_of (form req) ''image'' = Some image_data \<and> strip_prefix image_data = Inr x"
  show "upload_image env req s = (Json [(''error'', JStr e)] 500, s)"
    if "fault env = OpenFails e"
    using field that upload_form_field_faults(1) [of req image_data x env e s] by simp
  show "fst (upload_image env req s) = Json [(''error'', JStr e)] 500"
    if "(\<forall>e'. fault env \<noteq> OpenFails e') \<and> b64decode env x = Inl e"
    using field that upload_form_field_faults(2) [of req image_data x env e s] by simp
  show "fst (upload_image env req s) = Json [(''error'', JStr e)] 500"
    if "b64decode env x = Inr bs \<and> fault env = WriteFails e n"
    using field that upload_form_field_faults(3) [of req image_data x env bs e n s] by simp
qed

theorem failures_are_answered_500_witness:
  "fst (upload_image env_disk_full req_file (initial Map.empty)) =
     Json [(''error'', JStr ''[Errno 28] No space left on device'')] 500 \<and>
   upload_image env_read_only req_plain (initial Map.empty) =
     (Json [(''error'', JStr ''[Errno 30] Read-only file system'')] 500, initial Map.empty) \<and>
   fst (upload_image env_noon req_malformed (initial Map.empty)) =
     Json [(''error'', JStr ''Incorrect padding'')] 500 \<and>
   latest_image (snd (upload_image env_noon req_malformed (initial Map.empty))) =
     latest_image (initial Map.empty)"
  using failures_are_answered_500 [of env_disk_full req_file "initial Map.empty"
      "\<lparr>fs_filename = ''frame.jpg'', stream = [255, 216, 255]\<rparr>"
      "''[Errno 28] No space left on device''" 1]
    failures_are_answered_500 [of env_read_only req_plain "initial Map.empty" _
      "''[Errno 30] Read-only file system''" _ "''QUJD''" "''QUJD''"]
    failures_are_answered_500 [of env_noon req_malformed "initial Map.empty" _
      "''Incorrect padding''" _ "''QUJ''" "''QUJ''"]
  by (simp add: example_defs strip_prefix_def)

lemma split_on_first: "c \<notin> set pre \<Longrightarrow> split_on c (pre @ c # rest) = pre # split_on c rest"
  by (induction pre) auto

lemma strip_prefix_no_comma: "CHR '','' \<notin> set v \<Longrightarrow> strip_prefix v = Inr v"
  by (simp add: strip_prefix_def)

lemma strip_prefix_one_comma:
  assumes "CHR '','' \<notin> set pre" "CHR '','' \<notin> set rest"
  shows "strip_prefix (pre @ CHR '','' # rest) = Inr rest"
  using assms by (simp add: strip_prefix_def split_on_first split_on_no_sep)

text \<open>
  With one comma at most, the field is decoded as a whole or from behind its
  first comma.
\<close>

lemma stripped_payload:
  assumes "map_of (files req) ''image'' = None" "map_of (form req) ''image'' = Some (pre @ CHR '','' # rest)"
    "CHR '','' \<notin> set pre" "CHR '','' \<notin> set rest"
  shows "payload env req = (case b64decode env rest of Inl e \<Rightarrow> None | Inr bs \<Rightarrow> Some bs)"
  using assms by (simp add: payload_def strip_prefix_one_comma)

lemma one_comma_examples:
  "frame_store (snd (upload_image env_noon req_plain (initial Map.empty)))
     ''image_20240101_120000.jpg'' = Some [65, 66, 67] \<and>
   frame_store (snd (upload_image env_noon req_data_uri (initial Map.empty)))
     ''image_20240101_120000.jpg'' = Some [65, 66, 67]"
  by (simp add: eval_defs)

text \<open>
  C3 at a field with two commas. Line 50 keeps the part between the first
  comma and the second: the decoder is given \<^verbatim>\<open>QUJD\<close> and the file holds
  \<^verbatim>\<open>ABC\<close>, where the decoding of everything after the first comma,
  \<^verbatim>\<open>QUJD,REVG\<close>, is \<^verbatim>\<open>ABCDEF\<close>.
\<close>

theorem second_comma_cuts_the_payload:
  "strip_prefix ''data:image/jpeg;base64,QUJD,REVG'' = Inr ''QUJD'' \<and>
   fst (upload_image env_noon req_two_commas (initial Map.empty)) =
     Json [(''status'', JStr ''success''), (''filename'', JStr ''image_20240101_120000.jpg''),
           (''timestamp'', JStr ''20240101_120000'')] 200 \<and>
   get_image ''image_20240101_120000.jpg''
     (snd (upload_image env_noon req_two_commas (initial Map.empty))) = File [65, 66, 67] \<and>
   b64decode env_noon ''QUJD,REVG'' = Inr [65, 66, 67, 68, 69, 70]"
proof -
  have "frame_store (snd (upload_image env_noon req_two_commas (initial Map.empty)))
      (key_of env_noon) = Some [65, 66, 67]"
    by (simp add: key_noon) (simp add: eval_defs)
  then have "get_image (key_of env_noon)
      (snd (upload_image env_noon req_two_commas (initial Map.empty))) = File [65, 66, 67]"
    by (simp add: get_image_key)
  then show ?thesis
    by (simp add: key_noon) (simp add: eval_defs)
qed

lemma normpath_step_shape:
  assumes part: "CHR ''/'' \<notin> set part"
    and acc: "acc = replicate k ''..'' @ ps"
    and ps: "\<forall>c \<in> set ps. plain_name c"
  shows "\<exists>k' ps'. normpath_step False acc part = replicate k' ''..'' @ ps' \<and>
    (\<forall>c \<in> set ps'. plain_name c)"
proof -
  consider (skip) "part = [] \<or> part = ''.''"
    | (name) "part \<noteq> []" "part \<noteq> ''.''" "part \<noteq> ''..''"
    | (up) "part = ''..''"
    by blast
  then show ?thesis
  proof cases
    case skip
    then have "normpath_step False acc part = acc"
      by (auto simp: normpath_step_def)
    with acc ps show ?thesis
      by blast
  next
    case name
    then have "normpath_step False acc part = replicate k ''..'' @ (ps @ [part])"
      by (simp add: normpath_step_def acc)
    moreover have "\<forall>c \<in> set (ps @ [part]). plain_name c"
      using ps name part by (simp add: plain_name_def)
    ultimately show ?thesis
      by blast
  next
    case up
    show ?thesis
    proof (cases "ps = []")
      case True
      then have "normpath_step False acc part = replicate (Suc k) ''..'' @ []"
        using up acc by (cases k) (simp_all add: normpath_step_def replicate_append_same)
      then show ?thesis
        by (intro exI [of _ "Suc k"] exI [of _ "[]"]) simp
    next
      case False
      then have "last acc = last ps" "acc \<noteq> []"
        using acc by simp_all
      moreover have "last ps \<noteq> ''..''"
        using False ps by (auto simp: plain_name_def dest: last_in_set)
      ultimately have "normpath_step False acc part = butlast acc"
        using up by (simp add: normpath_step_def)
      also have "\<dots> = replicate k ''..'' @ butlast ps"
        using False acc by (simp add: butlast_append)
      finally have "normpath_step False acc part = replicate k ''..'' @ butlast ps" .
      moreover have "\<forall>c \<in> set (butlast ps). plain_name c"
        using ps by (auto dest: in_set_butlastD)
      ultimately show ?thesis
        by blast
    qed
  qed
qed

lemma normpath_fold_shape:
  assumes "\<forall>p \<in> set parts. CHR ''/'' \<notin> set p"
    and "acc = replicate k ''..'' @ ps"
    and "\<forall>c \<in> set ps. plain_name c"
  shows "\<exists>k' ps'. foldl (normpath_step False) acc parts = replicate k' ''..'' @ ps' \<and>
    (\<forall>c \<in> set ps'. plain_name c)"
  using assms
proof (induction parts arbitrary: acc k ps)
  case Nil
  then show ?case
    by auto
next
  case (Cons p parts)
  from Cons.prems obtain k' ps' where
    "normpath_step False acc p = replicate k' ''..'' @ ps'" "\<forall>c \<in> set ps'. plain_name c"
    using normpath_step_shape [of p acc k ps] by auto
  with Cons.IH [of "normpath_step False acc p" k' ps'] Cons.prems(1) show ?case
    by simp
qed

lemma join_up: "join ''/'' (''..'' # rest) = ''..'' \<or> startswith (join ''/'' (''..'' # rest)) ''../''"
  by (cases rest) (simp_all add: startswith_def)

lemma normpath_relative:
  assumes "fname \<noteq> []" "\<not> startswith (normpath fname) ''/''"
    "normpath fname \<noteq> ''..''" "\<not> startswith (normpath fname) ''../''"
  shows "\<exists>comps. normpath fname = join ''/'' comps \<and>
    (\<forall>c \<in> set comps. CHR ''/'' \<notin> set c \<and> c \<noteq> ''..'')"
proof -
  have rel: "\<not> startswith fname ''/''"
  proof
    assume "startswith fname ''/''"
    then have "startswith (normpath fname) ''/''"
      using assms(1) by (auto simp: normpath_def Let_def startswith_def)
    with assms(2) show False
      by simp
  qed
  define acc where "acc = foldl (normpath_step False) [] (split_on CHR ''/'' fname)"
  have n: "normpath fname = (if join ''/'' acc = [] then ''.'' else join ''/'' acc)"
    using assms(1) rel by (simp add: normpath_def acc_def Let_def)
  obtain k ps where shape: "acc = replicate k ''..'' @ ps" "\<forall>c \<in> set ps. plain_name c"
    using normpath_fold_shape [of "split_on CHR ''/'' fname" "[]" 0 "[]"] split_on_parts
    unfolding acc_def by auto
  show ?thesis
  proof (cases "join ''/'' acc = []")
    case True
    with n have "normpath fname = join ''/'' [''.'']"
      by simp
    then show ?thesis
      by (intro exI [of _ "[''.'']"]) simp
  next
    case False
    with n have eq: "normpath fname = join ''/'' acc"
      by simp
    have "k = 0"
    proof (rule ccontr)
      assume "k \<noteq> 0"
      then obtain j where "k = Suc j"
        by (cases k) auto
      with shape have "acc = ''..'' # (replicate j ''..'' @ ps)"
        by simp
      with join_up [of "replicate j ''..'' @ ps"] eq assms(3,4) show False
        by simp
    qed
    with shape have "acc = ps"
      by simp
    with eq shape(2) show ?thesis
      by (auto simp: plain_name_def)
  qed
qed

lemma upload_folder_join:
  "\<not> startswith n ''/'' \<Longrightarrow> os_path_join UPLOAD_FOLDER n = ''uploads/'' @ n"
  by (simp add: os_path_join_def UPLOAD_FOLDER_def)

lemma safe_join_inside:
  assumes "safe_join UPLOAD_FOLDER fname = Some path"
  shows "\<exists>comps. path = ''uploads/'' @ join ''/'' comps \<and>
    (\<forall>c \<in> set comps. CHR ''/'' \<notin> set c \<and> c \<noteq> ''..'')"
proof (cases "fname = []")
  case True
  with assms have "path = ''uploads/'' @ join ''/'' []"
    by (simp add: safe_join_def UPLOAD_FOLDER_def os_path_join_def startswith_def)
  then show ?thesis
    by (intro exI [of _ "[]"]) simp
next
  case False
  with assms have ok: "\<not> startswith (normpath fname) ''/''" "normpath fname \<noteq> ''..''"
    "\<not> startswith (normpath fname) ''../''"
    and path: "path = os_path_join UPLOAD_FOLDER (normpath fname)"
    by (auto simp: safe_join_def UPLOAD_FOLDER_def Let_def split: if_splits)
  from normpath_relative [OF False ok] obtain comps where
    "normpath fname = join ''/'' comps" "\<forall>c \<in> set comps. CHR ''/'' \<notin> set c \<and> c \<noteq> ''..''"
    by blast
  with path ok(1) show ?thesis
    using upload_folder_join [of "normpath fname"] by auto
qed

text \<open>
  C8. Whatever the file name, \<^verbatim>\<open>get_image\<close> answers with a file or with 404.
  A file it answers with is at a path below \<^verbatim>\<open>uploads/\<close> none of whose
  components is \<^verbatim>\<open>..\<close>. For a name without a slash, which is what the route
  passes, the answer is the lookup of the name in the frame store: its bytes,
  or 404 when the store has no such name.
\<close>

theorem retrieval_stays_in_upload_folder:
  "(get_image fname s = NotFound \<or> (\<exists>bs. get_image fname s = File bs)) \<and>
   (\<forall>bs. get_image fname s = File bs \<longrightarrow>
      (\<exists>comps. (\<forall>c \<in> set comps. CHR ''/'' \<notin> set c \<and> c \<noteq> ''..'') \<and>
         disk s (''uploads/'' @ join ''/'' comps) = Some bs)) \<and>
   (CHR ''/'' \<notin> set fname \<and> frame_store s fname = None \<longrightarrow> get_image fname s = NotFound) \<and>
   (CHR ''/'' \<notin> set fname \<and> fname \<noteq> ''..'' \<longrightarrow>
      get_image fname s = (case frame_store s fname of None \<Rightarrow> NotFound | Some bs \<Rightarrow> File bs))"
proof (intro conjI allI impI)
  show "get_image fname s = NotFound \<or> (\<exists>bs. get_image fname s = File bs)"
    by (simp add: get_image_def send_from_directory_def split: option.splits)
next
  fix bs
  assume "get_image fname s = File bs"
  then obtain path where "safe_join UPLOAD_FOLDER fname = Some path" "disk s path = Some bs"
    by (auto simp: get_image_def send_from_directory_def split: option.splits)
  with safe_join_inside [of fname path]
  show "\<exists>comps. (\<forall>c \<in> set comps. CHR ''/'' \<notin> set c \<and> c \<noteq> ''..'') \<and>
      disk s (''uploads/'' @ join ''/'' comps) = Some bs"
    by auto
next
  assume h: "CHR ''/'' \<notin> set fname \<and> frame_store s fname = None"
  show "get_image fname s = NotFound"
  proof (cases "fname = ''..''")
    case True
    then show ?thesis
      by (simp add: get_image_def send_from_directory_def safe_join_def normpath_def
          normpath_step_def startswith_def)
  next
    case False
    with h show ?thesis
      by (simp add: get_image_no_slash frame_store_def)
  qed
next
  assume "CHR ''/'' \<notin> set fname \<and> fname \<noteq> ''..''"
  then show "get_image fname s =
      (case frame_store s fname of None \<Rightarrow> NotFound | Some bs \<Rightarrow> File bs)"
    by (simp add: get_image_no_slash frame_store_def)
qed

theorem retrieval_stays_in_upload_folder_witness:
  "get_image ''does-not-exist.jpg'' server_example = NotFound \<and>
   get_image ''image_20240101_120000.jpg'' server_example = File [255, 216, 255] \<and>
   get_image ''..'' server_example = NotFound \<and>
   disk server_example ''uploads/../secret.txt'' = Some [1, 2, 3] \<and>
   get_image ''../secret.txt'' server_example = NotFound"
  using retrieval_stays_in_upload_folder [of "''does-not-exist.jpg''" server_example]
    retrieval_stays_in_upload_folder [of "''image_20240101_120000.jpg''" server_example]
    retrieval_stays_in_upload_folder [of "''..''" server_example]
    retrieval_stays_in_upload_folder [of "''../secret.txt''" server_example]
  by (simp add: server_example_def frame_store_def os_path_join_def UPLOAD_FOLDER_def
      startswith_def get_image_def send_from_directory_def safe_join_def normpath_def
      normpath_step_def Let_def)

lemma run_append: "run (xs @ ys) s = run ys (run xs s)"
  by (induction xs arbitrary: s) simp_all

lemma latest_was_uploaded:
  "filename (latest_image (run ops (initial d))) = Some f \<Longrightarrow>
   \<exists>pre env req post. ops = pre @ Upload env req # post \<and> key_of env = f \<and>
     status (fst (upload_image env req (run pre (initial d)))) = 200 \<and>
     payload env req \<noteq> None \<and>
     frame_store (snd (upload_image env req (run pre (initial d)))) f = payload env req"
proof (induction ops arbitrary: f rule: rev_induct)
  case Nil
  then show ?case
    by (simp add: initial_def)
next
  case (snoc x xs)
  let ?s = "run xs (initial d)"
  have last_step: "run (xs @ [x]) (initial d) = snd (step x ?s)"
    by (simp add: run_append)
  have earlier: ?case if "latest_image (snd (step x ?s)) = latest_image ?s"
  proof -
    from snoc.prems that have "filename (latest_image ?s) = Some f"
      by (simp add: last_step)
    from snoc.IH [OF this] obtain pre env req post where
      "xs = pre @ Upload env req # post" "key_of env = f"
      "status (fst (upload_image env req (run pre (initial d)))) = 200"
      "payload env req \<noteq> None"
      "frame_store (snd (upload_image env req (run pre (initial d)))) f = payload env req"
      by blast
    then have "xs @ [x] = pre @ Upload env req # (post @ [x])"
      by simp
    then show ?thesis
      using \<open>key_of env = f\<close>
        \<open>status (fst (upload_image env req (run pre (initial d)))) = 200\<close>
        \<open>payload env req \<noteq> None\<close>
        \<open>frame_store (snd (upload_image env req (run pre (initial d)))) f = payload env req\<close>
      by blast
  qed
  show ?case
  proof (cases x)
    case (Upload env req)
    show ?thesis
    proof (cases "status (fst (upload_image env req ?s)) = 200")
      case True
      from upload_ok_state [OF True] obtain bs where bs: "payload env req = Some bs"
        and s': "snd (upload_image env req ?s) =
          ?s\<lparr>disk := (disk ?s)(os_path_join UPLOAD_FOLDER (key_of env) \<mapsto> bs),
             latest_image := \<lparr>filename = Some (key_of env),
                                timestamp = Some (strftime (now env))\<rparr>\<rparr>"
        by blast
      from snoc.prems [unfolded last_step] have f: "key_of env = f"
        by (simp add: Upload s')
      have "frame_store (snd (upload_image env req ?s)) f = payload env req"
        by (simp add: s' frame_store_def f [symmetric] bs)
      with True bs f Upload show ?thesis
        by (intro exI [of _ xs] exI [of _ env] exI [of _ req] exI [of _ "[]"]) simp
    next
      case False
      then have "latest_image (snd (step x ?s)) = latest_image ?s"
        using Upload by (simp add: upload_failed_latest)
      then show ?thesis
        by (rule earlier)
    qed
  next
    case Latest
    then show ?thesis
      by (intro earlier) simp
  next
    case (Image fname)
    then show ?thesis
      by (intro earlier) simp
  qed
qed

text \<open>
  C1. In every state the server reaches from its start, by any sequence of
  uploads, queries and retrievals, a file name held in \<^verbatim>\<open>latest_image\<close> is
  the name of a file of the frame store, and it was set by an upload of the
  sequence that answered 200, after which the file held all the bytes of that
  upload. An upload that does not answer 200 leaves \<^verbatim>\<open>latest_image\<close> as it
  was; one that answers 200 has written its file before it sets the name.
\<close>

theorem latest_names_a_stored_frame:
  "(\<forall>f. filename (latest_image (run ops (initial d))) = Some f \<longrightarrow>
        frame_store (run ops (initial d)) f \<noteq> None \<and>
        (\<exists>pre env req post. ops = pre @ Upload env req # post \<and> key_of env = f \<and>
           status (fst (upload_image env req (run pre (initial d)))) = 200 \<and>
           payload env req \<noteq> None \<and>
           frame_store (snd (upload_image env req (run pre (initial d)))) f = payload env req)) \<and>
   (status (fst (upload_image env req s)) \<noteq> 200 \<longrightarrow>
      latest_image (snd (upload_image env req s)) = latest_image s) \<and>
   (status (fst (upload_image env req s)) = 200 \<longrightarrow>
      filename (latest_image (snd (upload_image env req s))) = Some (key_of env) \<and>
      frame_store (snd (upload_image env req s)) (key_of env) = payload env req \<and>
      payload env req \<noteq> None)"
proof (intro conjI allI impI)
  fix f
  assume f: "filename (latest_image (run ops (initial d))) = Some f"
  then show "frame_store (run ops (initial d)) f \<noteq> None"
    using reached_latest_ok [of ops d] by (simp add: latest_ok_def)
  from f show "\<exists>pre env req post. ops = pre @ Upload env req # post \<and> key_of env = f \<and>
      status (fst (upload_image env req (run pre (initial d)))) = 200 \<and>
      payload env req \<noteq> None \<and>
      frame_store (snd (upload_image env req (run pre (initial d)))) f = payload env req"
    by (rule latest_was_uploaded)
next
  assume "status (fst (upload_image env req s)) \<noteq> 200"
  then show "latest_image (snd (upload_image env req s)) = latest_image s"
    by (rule upload_failed_latest)
next
  assume ok: "status (fst (upload_image env req s)) = 200"
  from upload_ok_state [OF ok] obtain bs where bs: "payload env req = Some bs"
    and s': "snd (upload_image env req s) =
      s\<lparr>disk := (disk s)(os_path_join UPLOAD_FOLDER (key_of env) \<mapsto> bs),
        latest_image := \<lparr>filename = Some (key_of env), timestamp = Some (strftime (now env))\<rparr>\<rparr>"
    by blast
  show "filename (latest_image (snd (upload_image env req s))) = Some (key_of env)"
    by (simp add: s')
  show "frame_store (snd (upload_image env req s)) (key_of env) = payload env req"
    by (simp add: s' frame_store_def bs)
  show "payload env req \<noteq> None"
    by (simp add: bs)
qed

theorem latest_names_a_stored_frame_witness:
  "filename (latest_image (run [Upload env_noon req_file, Latest, Upload env_disk_full req_plain]
      (initial Map.empty))) = Some ''image_20240101_120000.jpg'' \<and>
   frame_store (run [Upload env_noon req_file, Latest, Upload env_disk_full req_plain]
      (initial Map.empty)) ''image_20240101_120000.jpg'' \<noteq> None \<and>
   status (fst (upload_image env_disk_full req_plain
      (snd (upload_image env_noon req_file (initial Map.empty))))) = 500 \<and>
   latest_image (snd (upload_image env_disk_full req_plain
      (snd (upload_image env_noon req_file (initial Map.empty))))) =
     latest_image (snd (upload_image env_noon req_file (initial Map.empty)))"
  using latest_names_a_stored_frame [of
      "[Upload env_noon req_file, Latest, Upload env_disk_full req_plain]"
      Map.empty env_disk_full req_plain "snd (upload_image env_noon req_file (initial Map.empty))"]
  by (simp add: eval_defs)

section \<open>The register under interleaved requests\<close>

lemma update_latest_two_writes:
  "update_latest fname ts s =
     (Json [(''status'', JStr ''success''), (''filename'', JStr fname),
            (''timestamp'', JStr ts)] 200,
      set_timestamp ts (set_filename fname s))"
  by (simp add: update_latest_def set_filename_def set_timestamp_def Let_def)

lemma upload_ok_two_writes:
  assumes "status (fst (upload_image env req s)) = 200"
  shows "upload_image env req s =
    update_latest (key_of env) (strftime (now env)) (before_line_62 env req s)"
proof -
  from upload_ok_state [OF assms] obtain bs where
    s': "snd (upload_image env req s) =
      s\<lparr>disk := (disk s)(os_path_join UPLOAD_FOLDER (key_of env) \<mapsto> bs),
        latest_image := \<lparr>filename = Some (key_of env), timestamp = Some (strftime (now env))\<rparr>\<rparr>"
    by blast
  have "upload_image env req s = (fst (upload_image env req s), snd (upload_image env req s))"
    by simp
  also have "\<dots> = update_latest (key_of env) (strftime (now env)) (before_line_62 env req s)"
    by (simp add: upload_ok_response [OF assms] s' before_line_62_def update_latest_def)
  finally show ?thesis .
qed

lemma read_between_the_writes:
  "fname \<noteq> [] \<Longrightarrow>
   get_latest_image (set_filename fname s) =
     Json [(''filename'', JStr fname), (''timestamp'', to_json (timestamp (latest_image s))),
           (''url'', JStr (''/images/'' @ fname))] 200"
  by (simp add: get_latest_image_def set_filename_def)

lemma latest_pair_of_one_upload:
  "filename (latest_image (run ops (initial d))) = Some f \<Longrightarrow>
   \<exists>pre env req post. ops = pre @ Upload env req # post \<and>
     status (fst (upload_image env req (run pre (initial d)))) = 200 \<and>
     latest_image (run ops (initial d)) =
       \<lparr>filename = Some (key_of env), timestamp = Some (strftime (now env))\<rparr>"
proof (induction ops arbitrary: f rule: rev_induct)
  case Nil
  then show ?case
    by (simp add: initial_def)
next
  case (snoc x xs)
  let ?s = "run xs (initial d)"
  have last_step: "run (xs @ [x]) (initial d) = snd (step x ?s)"
    by (simp add: run_append)
  have earlier: ?case if same: "latest_image (snd (step x ?s)) = latest_image ?s"
  proof -
    from snoc.prems same have "filename (latest_image ?s) = Some f"
      by (simp add: last_step)
    from snoc.IH [OF this] obtain pre env req post where
      xs: "xs = pre @ Upload env req # post"
      and ok: "status (fst (upload_image env req (run pre (initial d)))) = 200"
      and pair: "latest_image ?s =
        \<lparr>filename = Some (key_of env), timestamp = Some (strftime (now env))\<rparr>"
      by blast
    from xs have "xs @ [x] = pre @ Upload env req # (post @ [x])"
      by simp
    moreover from pair same have "latest_image (run (xs @ [x]) (initial d)) =
        \<lparr>filename = Some (key_of env), timestamp = Some (strftime (now env))\<rparr>"
      unfolding last_step by simp
    ultimately show ?thesis
      using ok by blast
  qed
  show ?case
  proof (cases x)
    case (Upload env req)
    show ?thesis
    proof (cases "status (fst (upload_image env req ?s)) = 200")
      case True
      have "latest_image (run (xs @ [x]) (initial d)) =
          \<lparr>filename = Some (key_of env), timestamp = Some (strftime (now env))\<rparr>"
        unfolding last_step by (simp add: Upload upload_ok_latest [OF True])
      with True Upload show ?thesis
        by (intro exI [of _ xs] exI [of _ env] exI [of _ req] exI [of _ "[]"]) simp
    next
      case False
      then have "latest_image (snd (step x ?s)) = latest_image ?s"
        using Upload by (simp add: upload_failed_latest)
      then show ?thesis
        by (rule earlier)
    qed
  next
    case Latest
    then show ?thesis
      by (intro earlier) simp
  next
    case (Image fname)
    then show ?thesis
      by (intro earlier) simp
  qed
qed

text \<open>
  C9, as the code has it. The register is written by two assignments, the
  file name first and the timestamp second, and nothing makes the pair atomic:
  an upload that answers 200 is these two writes, in this order, on the state
  in which it reaches line 62, and a query that runs between them answers with
  the new file name and the timestamp that was there before. When the requests
  run one after the other, the two fields of \<^verbatim>\<open>latest_image\<close> are those of one
  and the same upload, which answered 200.
\<close>

theorem register_update_is_two_writes:
  "(status (fst (upload_image env req s)) = 200 \<longrightarrow>
      upload_image env req s =
        (Json [(''status'', JStr ''success''), (''filename'', JStr (key_of env)),
               (''timestamp'', JStr (strftime (now env)))] 200,
         set_timestamp (strftime (now env))
           (set_filename (key_of env) (before_line_62 env req s))) \<and>
      get_latest_image (set_filename (key_of env) (before_line_62 env req s)) =
        Json [(''filename'', JStr (key_of env)),
              (''timestamp'', to_json (timestamp (latest_image s))),
              (''url'', JStr (''/images/'' @ key_of env))] 200) \<and>
   (\<forall>f. filename (latest_image (run ops (initial d))) = Some f \<longrightarrow>
      (\<exists>pre env' req' post. ops = pre @ Upload env' req' # post \<and>
         status (fst (upload_image env' req' (run pre (initial d)))) = 200 \<and>
         latest_image (run ops (initial d)) =
           \<lparr>filename = Some (key_of env'), timestamp = Some (strftime (now env'))\<rparr>))"
proof (intro conjI allI impI)
  assume ok: "status (fst (upload_image env req s)) = 200"
  show "upload_image env req s =
      (Json [(''status'', JStr ''success''), (''filename'', JStr (key_of env)),
             (''timestamp'', JStr (strftime (now env)))] 200,
       set_timestamp (strftime (now env))
         (set_filename (key_of env) (before_line_62 env req s)))"
    by (simp add: upload_ok_two_writes [OF ok] update_latest_two_writes)
  have "latest_image (before_line_62 env req s) = latest_image s"
    by (simp add: before_line_62_def)
  then show "get_latest_image (set_filename (key_of env) (before_line_62 env req s)) =
      Json [(''filename'', JStr (key_of env)),
            (''timestamp'', to_json (timestamp (latest_image s))),
            (''url'', JStr (''/images/'' @ key_of env))] 200"
    using read_between_the_writes [of "key_of env" "before_line_62 env req s"]
    by (simp add: key_of_not_dots)
next
  fix f
  assume "filename (latest_image (run ops (initial d))) = Some f"
  then show "\<exists>pre env' req' post. ops = pre @ Upload env' req' # post \<and>
      status (fst (upload_image env' req' (run pre (initial d)))) = 200 \<and>
      latest_image (run ops (initial d)) =
        \<lparr>filename = Some (key_of env'), timestamp = Some (strftime (now env'))\<rparr>"
    by (rule latest_pair_of_one_upload)
qed

lemma server_noon_latest:
  "latest_image server_noon =
     \<lparr>filename = Some ''image_20240101_120000.jpg'', timestamp = Some ''20240101_120000''\<rparr>"
  by (simp add: server_noon_def eval_defs)

lemma second_upload_ok: "status (fst (upload_image env_one_past_noon req_plain server_noon)) = 200"
  by (simp add: server_noon_def eval_defs)

theorem register_update_is_two_writes_witness:
  "status (fst (upload_image env_one_past_noon req_plain server_noon)) = 200 \<and>
   snd (upload_image env_one_past_noon req_plain server_noon) =
     set_timestamp ''20240101_120001''
       (set_filename ''image_20240101_120001.jpg''
          (before_line_62 env_one_past_noon req_plain server_noon)) \<and>
   latest_image (run [Upload env_noon req_file, Upload env_one_past_noon req_plain, Latest]
       (initial Map.empty)) =
     \<lparr>filename = Some ''image_20240101_120001.jpg'', timestamp = Some ''20240101_120001''\<rparr>"
  using register_update_is_two_writes [of env_one_past_noon req_plain server_noon
      "[Upload env_noon req_file, Upload env_one_past_noon req_plain, Latest]" Map.empty]
    second_upload_ok
  by (simp add: key_one_past_noon) (simp add: eval_defs)

text \<open>
  C9 fails on the code. A first upload at noon has set both fields. A second
  upload, one second later, has written its file and made the assignment of
  line 62; the query that runs now, before line 63, answers 200 with the file
  name of the second upload and the timestamp of the first.
\<close>

theorem torn_read_counterexample:
  "latest_image server_noon =
     \<lparr>filename = Some ''image_20240101_120000.jpg'', timestamp = Some ''20240101_120000''\<rparr> \<and>
   upload_image env_one_past_noon req_plain server_noon =
     (Json [(''status'', JStr ''success''), (''filename'', JStr ''image_20240101_120001.jpg''),
            (''timestamp'', JStr ''20240101_120001'')] 200,
      set_timestamp ''20240101_120001''
        (set_filename ''image_20240101_120001.jpg''
           (before_line_62 env_one_past_noon req_plain server_noon))) \<and>
   get_latest_image
     (set_filename ''image_20240101_120001.jpg''
        (before_line_62 env_one_past_noon req_plain server_noon)) =
     Json [(''filename'', JStr ''image_20240101_120001.jpg''),
           (''timestamp'', JStr ''20240101_120000''),
           (''url'', JStr ''/images/image_20240101_120001.jpg'')] 200"
proof -
  note ok = second_upload_ok
  have "upload_image env_one_past_noon req_plain server_noon =
      update_latest (key_of env_one_past_noon) (strftime (now env_one_past_noon))
        (before_line_62 env_one_past_noon req_plain server_noon)"
    by (rule upload_ok_two_writes [OF ok])
  then have up: "upload_image env_one_past_noon req_plain server_noon =
      (Json [(''status'', JStr ''success''), (''filename'', JStr ''image_20240101_120001.jpg''),
             (''timestamp'', JStr ''20240101_120001'')] 200,
       set_timestamp ''20240101_120001''
         (set_filename ''image_20240101_120001.jpg''
            (before_line_62 env_one_past_noon req_plain server_noon)))"
    by (simp add: update_latest_two_writes key_one_past_noon)
      (simp add: env_one_past_noon_def strftime_one_past_noon)
  have "latest_image (before_line_62 env_one_past_noon req_plain server_noon) =
      latest_image server_noon"
    by (simp add: before_line_62_def)
  then have rd: "get_latest_image
      (set_filename ''image_20240101_120001.jpg''
         (before_line_62 env_one_past_noon req_plain server_noon)) =
      Json [(''filename'', JStr ''image_20240101_120001.jpg''),
            (''timestamp'', JStr ''20240101_120000''),
            (''url'', JStr ''/images/image_20240101_120001.jpg'')] 200"
    using read_between_the_writes [of "''image_20240101_120001.jpg''"
        "before_line_62 env_one_past_noon req_plain server_noon"]
    by (simp add: server_noon_latest)
  from server_noon_latest up rd show ?thesis
    by (intro conjI)
qed

end
